theory Spec2Isabelle
  imports Main
begin

section \<open>JavaScript built-ins used by the command handlers\<close>

text \<open>
  Strings are lists of characters. The handlers of \<^verbatim>\<open>src/index.js\<close> only use
  \<^verbatim>\<open>split\<close> and \<^verbatim>\<open>join\<close> with a one-character separator, \<^verbatim>\<open>trim\<close>,
  \<^verbatim>\<open>filter(Boolean)\<close> on arrays of strings, and \<^verbatim>\<open>Array.from(new Set(...))\<close>.
\<close>

definition nl :: char where
  "nl = CHR 0x0A"

text \<open>
  \<^verbatim>\<open>s.split(c)\<close> for a one-character separator: the fields between the occurrences
  of the separator, empty fields included; the empty string has the one field \<^verbatim>\<open>""\<close>.
\<close>

fun split_on :: "char \<Rightarrow> string \<Rightarrow> string list" where
  "split_on c [] = [[]]"
| "split_on c (x # xs) =
     (if x = c then [] # split_on c xs
      else (case split_on c xs of
              [] \<Rightarrow> [[x]]
            | f # fs \<Rightarrow> (x # f) # fs))"

text \<open>\<^verbatim>\<open>fs.join(c)\<close>: the fields with the separator between neighbours.\<close>

fun join_with :: "char \<Rightarrow> string list \<Rightarrow> string" where
  "join_with c [] = []"
| "join_with c [f] = f"
| "join_with c (f # g # fs) = f @ c # join_with c (g # fs)"

text \<open>
  The white space and line terminators that \<^verbatim>\<open>String.prototype.trim\<close> strips, as far
  as they are code units below 256: TAB, LF, VT, FF, CR, SP and NBSP.
\<close>

definition is_js_space :: "char \<Rightarrow> bool" where
  "is_js_space c =
     (c = CHR 0x09 \<or> c = CHR 0x0A \<or> c = CHR 0x0B \<or> c = CHR 0x0C \<or> c = CHR 0x0D
      \<or> c = CHR 0x20 \<or> c = CHR 0xA0)"

definition trim :: "string \<Rightarrow> string" where
  "trim s = rev (dropWhile is_js_space (rev (dropWhile is_js_space s)))"

text \<open>\<^verbatim>\<open>filter(Boolean)\<close> on strings: the empty string is the only falsy one.\<close>

definition filter_Boolean :: "string list \<Rightarrow> string list" where
  "filter_Boolean xs = filter (\<lambda>s. s \<noteq> []) xs"

text \<open>
  A JavaScript \<^verbatim>\<open>Set\<close> iterates in insertion order, and adding a member again changes
  nothing. It is modelled by the list of its members in insertion order.
\<close>

definition set_add :: "'a list \<Rightarrow> 'a \<Rightarrow> 'a list" where
  "set_add s x = (if x \<in> set s then s else s @ [x])"

definition new_Set :: "'a list \<Rightarrow> 'a list" where
  "new_Set xs = foldl set_add [] xs"

definition Array_from :: "'a list \<Rightarrow> 'a list" where
  "Array_from s = s"

section \<open>The topic registry: \<^verbatim>\<open>kafka:topics\<close>\<close>

text \<open>
  The file \<^verbatim>\<open>topics.txt\<close> is \<open>None\<close> when it does not exist and \<open>Some content\<close>
  otherwise. The definitions follow the local constants of \<^verbatim>\<open>generateTopicsList\<close>.
\<close>

definition newTopics :: "string \<Rightarrow> string list" where
  "newTopics answers = map trim (split_on CHR '','' answers)"

definition existingTopics :: "string option \<Rightarrow> string list" where
  "existingTopics file =
     (case file of
        None \<Rightarrow> []
      | Some fileContent \<Rightarrow> filter_Boolean (split_on nl fileContent))"

definition combinedTopics :: "string list \<Rightarrow> string list \<Rightarrow> string list" where
  "combinedTopics existing incoming = Array_from (new_Set (existing @ incoming))"

definition topicsList :: "string list \<Rightarrow> string" where
  "topicsList combined = join_with nl combined"

text \<open>
  What the process does to the outside: a command line handed to \<^verbatim>\<open>execPromise\<close>, a line
  on \<^verbatim>\<open>console.log\<close>, a line on \<^verbatim>\<open>console.error\<close>. The colours of \<^verbatim>\<open>chalk\<close> are
  left out.
\<close>

datatype event = Exec string | ConsoleLog string | ConsoleError string

text \<open>
  The handler of \<^verbatim>\<open>kafka:topics\<close>, from the answer of the prompt and the file to the
  file it writes and what it prints. Reading and writing the file are taken to succeed.
\<close>

definition generateTopicsList :: "string \<Rightarrow> string option \<Rightarrow> string option \<times> event list" where
  "generateTopicsList answers file =
     (let new = newTopics answers;
          existing = existingTopics file;
          combined = combinedTopics existing new
      in (Some (topicsList combined), [ConsoleLog ''Topics file updated successfully.'']))"

section \<open>The external runtime\<close>

text \<open>
  \<^verbatim>\<open>execPromise\<close> runs a command line in the world outside (the container runtime and
  the broker inside the container). The world is a parameter: a shell maps the world and
  a command line to the outcome and the world after it. \<open>Inr stdout\<close> is a resolved
  promise, \<open>Inl message\<close> a rejected one with \<^verbatim>\<open>error.message\<close>.
\<close>

type_synonym 'w shell = "'w \<Rightarrow> string \<Rightarrow> (string + string) \<times> 'w"

text \<open>A run of one command handler: the world so far and what the process has done.\<close>

record 'w run =
  world :: 'w
  trace :: "event list"

definition initial :: "'w \<Rightarrow> 'w run" where
  "initial w = \<lparr>world = w, trace = []\<rparr>"

definition emit :: "event \<Rightarrow> 'w run \<Rightarrow> 'w run" where
  "emit e r = r\<lparr>trace := trace r @ [e]\<rparr>"

definition execPromise :: "'w shell \<Rightarrow> string \<Rightarrow> 'w run \<Rightarrow> (string + string) \<times> 'w run" where
  "execPromise sh cmd r =
     (case sh (world r) cmd of
        (outcome, w') \<Rightarrow> (outcome, \<lparr>world = w', trace = trace r @ [Exec cmd]\<rparr>))"

text \<open>The command lines dispatched and the lines printed by \<^verbatim>\<open>console.error\<close>, in order.\<close>

fun dispatched :: "event list \<Rightarrow> string list" where
  "dispatched [] = []"
| "dispatched (Exec cmd # es) = cmd # dispatched es"
| "dispatched (ConsoleLog _ # es) = dispatched es"
| "dispatched (ConsoleError _ # es) = dispatched es"

fun reported :: "event list \<Rightarrow> string list" where
  "reported [] = []"
| "reported (Exec _ # es) = reported es"
| "reported (ConsoleLog _ # es) = reported es"
| "reported (ConsoleError line # es) = line # reported es"

section \<open>The container lifecycle: \<^verbatim>\<open>kafka:create\<close> and \<^verbatim>\<open>kafka:start\<close>\<close>

definition containerName :: string where
  "containerName = ''kafka-server''"

definition imageName :: string where
  "imageName = ''apache/kafka:3.8.0''"

text \<open>The caught error: \<^verbatim>\<open>console.error(chalk.red('Error:'), error.message)\<close>.\<close>

definition catch_error :: "string \<Rightarrow> 'w run \<Rightarrow> 'w run" where
  "catch_error message r = emit (ConsoleError (''Error: '' @ message)) r"

definition createKafkaContainer :: "'w shell \<Rightarrow> 'w run \<Rightarrow> 'w run" where
  "createKafkaContainer sh r =
     (case execPromise sh (''docker ps -aq -f name='' @ containerName) r of
        (Inl message, r1) \<Rightarrow> catch_error message r1
      | (Inr stdout, r1) \<Rightarrow>
          if trim stdout \<noteq> [] then
            emit (ConsoleLog (''The container '' @ containerName @ '' already exists.'')) r1
          else
            (case execPromise sh
                    (''docker run -d --name '' @ containerName
                       @ '' -p 9092:9092 -e ALLOW_PLAINTEXT_LISTENER=yes '' @ imageName)
                    (emit (ConsoleLog (''Creating the container '' @ containerName @ ''...'')) r1) of
               (Inl message, r2) \<Rightarrow> catch_error message r2
             | (Inr _, r2) \<Rightarrow>
                 emit (ConsoleLog (''Container '' @ containerName @ '' created and running.'')) r2))"

definition startKafkaContainer :: "'w shell \<Rightarrow> 'w run \<Rightarrow> 'w run" where
  "startKafkaContainer sh r =
     (case execPromise sh (''docker ps -aq -f name='' @ containerName) r of
        (Inl message, r1) \<Rightarrow> catch_error message r1
      | (Inr stdout, r1) \<Rightarrow>
          if \<not> (trim stdout \<noteq> []) then
            emit (ConsoleError ''Error: The container does not exist.'') r1
          else
            (case execPromise sh (''docker ps -q -f name='' @ containerName) r1 of
               (Inl message, r2) \<Rightarrow> catch_error message r2
             | (Inr isRunning, r2) \<Rightarrow>
                 if trim isRunning \<noteq> [] then
                   emit (ConsoleLog (''The container '' @ containerName @ '' is already running.'')) r2
                 else
                   (case execPromise sh (''docker start '' @ containerName)
                           (emit (ConsoleLog (''Starting the container '' @ containerName @ ''...'')) r2) of
                      (Inl message, r3) \<Rightarrow> catch_error message r3
                    | (Inr _, r3) \<Rightarrow>
                        emit (ConsoleLog (''Container '' @ containerName @ '' started.'')) r3)))"

section \<open>The topic migrator: \<^verbatim>\<open>kafka:migrate\<close>\<close>

text \<open>The command line of line 261.\<close>

definition createTopicCommand :: "string \<Rightarrow> string" where
  "createTopicCommand topic =
     ''docker exec kafka-server /opt/kafka/bin/kafka-topics.sh --create --topic '' @ topic
       @ '' --bootstrap-server localhost:9092''"

text \<open>
  The \<^verbatim>\<open>for\<close> loop of lines 259 to 263. A rejected \<^verbatim>\<open>execPromise\<close> leaves the loop
  with the error (\<open>Some message\<close>); \<open>None\<close> is the loop running to its end.
\<close>

fun forTopics :: "'w shell \<Rightarrow> string list \<Rightarrow> 'w run \<Rightarrow> string option \<times> 'w run" where
  "forTopics sh [] r = (None, r)"
| "forTopics sh (topic # topics) r =
     (case execPromise sh (createTopicCommand topic)
             (emit (ConsoleLog (''Creating the topic '' @ topic @ ''...'')) r) of
        (Inl message, r1) \<Rightarrow> (Some message, r1)
      | (Inr _, r1) \<Rightarrow>
          forTopics sh topics
            (emit (ConsoleLog (''Topic '' @ topic @ '' created successfully.'')) r1))"

definition kafkaMigrate :: "'w shell \<Rightarrow> string option \<Rightarrow> 'w run \<Rightarrow> 'w run" where
  "kafkaMigrate sh file r =
     (case file of
        None \<Rightarrow> emit (ConsoleError ''Error: The topics.txt file does not exist.'') r
      | Some content \<Rightarrow>
          (case forTopics sh (filter_Boolean (split_on nl content)) r of
             (Some message, r1) \<Rightarrow> catch_error message r1
           | (None, r1) \<Rightarrow> r1))"

text \<open>What the loop does for one topic whose creation succeeds.\<close>

definition created :: "string \<Rightarrow> event list" where
  "created topic =
     [ConsoleLog (''Creating the topic '' @ topic @ ''...''), Exec (createTopicCommand topic),
      ConsoleLog (''Topic '' @ topic @ '' created successfully.'')]"

text \<open>
  For the hypotheses about the runtime: the commands, run one after the other from a
  world, all succeed and leave the world \<open>w'\<close> (\<open>Some w'\<close>), or one of them fails.
\<close>

fun succeed_all :: "'w shell \<Rightarrow> 'w \<Rightarrow> string list \<Rightarrow> 'w option" where
  "succeed_all sh w [] = Some w"
| "succeed_all sh w (cmd # cmds) =
     (case sh w cmd of
        (Inl _, _) \<Rightarrow> None
      | (Inr _, w') \<Rightarrow> succeed_all sh w' cmds)"

section \<open>What the specification calls Merge\<close>

text \<open>
  The first appearance of every element, in order: the reading of "the subsequence whose
  elements are not already present, preserving the relative order of first appearance".
\<close>

fun first_seen :: "'a list \<Rightarrow> 'a list" where
  "first_seen [] = []"
| "first_seen (x # xs) = x # first_seen (filter (\<lambda>y. y \<noteq> x) xs)"

definition Merge_spec :: "'a list \<Rightarrow> 'a list \<Rightarrow> 'a list" where
  "Merge_spec existing incoming =
     existing @ first_seen (filter (\<lambda>x. x \<notin> set existing) incoming)"

text \<open>
  What the specification calls Load: "the ordered sequence of non-empty, trimmed lines",
  the empty sequence when the file is absent.
\<close>

definition Load_spec :: "string option \<Rightarrow> string list" where
  "Load_spec file =
     (case file of
        None \<Rightarrow> []
      | Some content \<Rightarrow> filter (\<lambda>l. l \<noteq> []) (map trim (split_on nl content)))"

section \<open>Properties of the set model\<close>

lemma foldl_set_add:
  "foldl set_add acc xs = acc @ first_seen (filter (\<lambda>x. x \<notin> set acc) xs)"
proof (induction xs arbitrary: acc)
  case Nil
  show ?case by simp
next
  case (Cons x xs)
  show ?case
  proof (cases "x \<in> set acc")
    case True
    then show ?thesis using Cons.IH [of acc] by (simp add: set_add_def)
  next
    case False
    have eq: "filter (\<lambda>y. y \<noteq> x) (filter (\<lambda>y. y \<notin> set acc) xs) =
              filter (\<lambda>y. y \<notin> set (acc @ [x])) xs"
      by (induction xs) auto
    show ?thesis using False Cons.IH [of "acc @ [x]"] eq by (simp add: set_add_def)
  qed
qed

lemma new_Set_first_seen: "new_Set xs = first_seen xs"
  by (simp add: new_Set_def foldl_set_add)

lemma set_first_seen: "set (first_seen xs) = set xs"
  by (induction xs rule: first_seen.induct) auto

lemma distinct_first_seen: "distinct (first_seen xs)"
  by (induction xs rule: first_seen.induct) (auto simp: set_first_seen)

lemma first_seen_distinct: "distinct xs \<Longrightarrow> first_seen xs = xs"
proof (induction xs)
  case Nil
  show ?case by simp
next
  case (Cons x xs)
  then have "filter (\<lambda>y. y \<noteq> x) xs = xs" by (auto intro: filter_True)
  with Cons show ?case by simp
qed

lemma first_seen_append:
  "first_seen (xs @ ys) = first_seen xs @ first_seen (filter (\<lambda>y. y \<notin> set xs) ys)"
proof -
  have one: "foldl set_add [] zs = first_seen zs" for zs :: "'a list"
    using foldl_set_add [of "[]" zs] by simp
  have "first_seen (xs @ ys) = foldl set_add [] (xs @ ys)"
    by (simp only: one)
  also have "\<dots> = foldl set_add (first_seen xs) ys"
    by (simp only: foldl_append one)
  also have "\<dots> = first_seen xs @ first_seen (filter (\<lambda>y. y \<notin> set xs) ys)"
    using foldl_set_add [of "first_seen xs" ys] by (simp only: set_first_seen)
  finally show ?thesis .
qed

lemma filter_first_seen: "filter P (first_seen xs) = first_seen (filter P xs)"
proof (induction xs rule: first_seen.induct)
  case 1
  show ?case by simp
next
  case (2 x xs)
  have comm: "filter P (filter (\<lambda>y. y \<noteq> x) xs) = filter (\<lambda>y. y \<noteq> x) (filter P xs)"
    by (induction xs) auto
  show ?case
  proof (cases "P x")
    case True
    with 2 comm show ?thesis by simp
  next
    case False
    then have "filter P (filter (\<lambda>y. y \<noteq> x) xs) = filter P xs"
      by (induction xs) auto
    with 2 False show ?thesis by simp
  qed
qed

text \<open>
  Claim C3. For a duplicate-free list \<open>existing\<close> and any list \<open>incoming\<close>, the merge of
  line 234 is \<open>existing\<close> followed by the elements of \<open>incoming\<close> that are not in
  \<open>existing\<close>, each at its first appearance; so merging \<^verbatim>\<open>["a","b"]\<close> with
  \<^verbatim>\<open>["b","c","a"]\<close> gives \<^verbatim>\<open>["a","b","c"]\<close>, and merging a duplicate-free registry
  with itself gives it back.
\<close>

theorem combinedTopics_Merge:
  "(distinct existing \<longrightarrow> combinedTopics existing incoming = Merge_spec existing incoming)
   \<and> combinedTopics [''a'', ''b''] [''b'', ''c'', ''a''] = [''a'', ''b'', ''c'']
   \<and> (distinct L \<longrightarrow> combinedTopics L L = L)"
proof (intro conjI impI)
  assume "distinct existing"
  then show "combinedTopics existing incoming = Merge_spec existing incoming"
    by (simp add: combinedTopics_def Array_from_def new_Set_first_seen first_seen_append
        first_seen_distinct Merge_spec_def)
next
  show "combinedTopics [''a'', ''b''] [''b'', ''c'', ''a''] = [''a'', ''b'', ''c'']"
    by (simp add: combinedTopics_def Array_from_def new_Set_def set_add_def)
next
  assume "distinct L"
  then show "combinedTopics L L = L"
    by (simp add: combinedTopics_def Array_from_def new_Set_first_seen first_seen_append
        first_seen_distinct)
qed

theorem combinedTopics_Merge_witness:
  "distinct [''orders'', ''payments'']
   \<and> combinedTopics [''orders'', ''payments''] [''payments'', ''refunds'', ''refunds'']
       = [''orders'', ''payments'', ''refunds'']
   \<and> Merge_spec [''orders'', ''payments''] [''payments'', ''refunds'', ''refunds'']
       = [''orders'', ''payments'', ''refunds'']
   \<and> combinedTopics [''orders'', ''payments''] [''orders'', ''payments'']
       = [''orders'', ''payments'']"
  using combinedTopics_Merge [of "[''orders'', ''payments'']"
      "[''payments'', ''refunds'', ''refunds'']" "[''orders'', ''payments'']"]
  by (simp add: Merge_spec_def)

section \<open>Splitting, joining and the registry file\<close>

lemma split_on_not_Nil: "split_on c s \<noteq> []"
  by (induction s) (auto split: list.splits)

lemma join_split: "join_with c (split_on c s) = s"
proof (induction s)
  case Nil show ?case by simp
next
  case (Cons x xs)
  show ?case
  proof (cases "split_on c xs")
    case Nil
    then show ?thesis using split_on_not_Nil by blast
  next
    case (Cons f fs)
    with Cons.IH show ?thesis by (cases fs) auto
  qed
qed

lemma split_on_free: "c \<notin> set f \<Longrightarrow> split_on c f = [f]"
  by (induction f) auto

lemma split_on_append: "c \<notin> set f \<Longrightarrow> split_on c (f @ c # r) = f # split_on c r"
  by (induction f) auto

lemma split_join:
  "fs \<noteq> [] \<Longrightarrow> \<forall>f\<in>set fs. c \<notin> set f \<Longrightarrow> split_on c (join_with c fs) = fs"
  by (induction c fs rule: join_with.induct) (auto simp: split_on_free split_on_append)

lemma split_on_fields: "f \<in> set (split_on c s) \<Longrightarrow> c \<notin> set f"
proof (induction s arbitrary: f)
  case Nil then show ?case by simp
next
  case (Cons x xs)
  then show ?case by (cases "split_on c xs") (auto split: if_splits)
qed

lemma set_trim: "set (trim s) \<subseteq> set s"
proof -
  have "set (dropWhile P xs) \<subseteq> set xs" for P and xs :: string
    by (meson set_dropWhileD subsetI)
  then show ?thesis unfolding trim_def
    by (metis set_rev subset_trans)
qed


lemma filter_Boolean_id: "[] \<notin> set L \<Longrightarrow> filter_Boolean L = L"
  unfolding filter_Boolean_def by (induction L) auto

lemma Load_Save:
  "\<forall>t\<in>set L. nl \<notin> set t \<Longrightarrow> existingTopics (Some (topicsList L)) = filter_Boolean L"
proof (cases "L = []")
  case True
  then show ?thesis by (simp add: existingTopics_def topicsList_def filter_Boolean_def)
next
  case False
  assume "\<forall>t\<in>set L. nl \<notin> set t"
  with False show ?thesis by (simp add: existingTopics_def topicsList_def split_join)
qed

lemma Load_Save_entries:
  "\<forall>t\<in>set L. t \<noteq> [] \<and> nl \<notin> set t \<Longrightarrow> existingTopics (Some (topicsList L)) = L"
proof -
  assume a: "\<forall>t\<in>set L. t \<noteq> [] \<and> nl \<notin> set t"
  then have "[] \<notin> set L" by blast
  with a show ?thesis by (simp add: Load_Save filter_Boolean_id)
qed

lemma nl_free_existing: "t \<in> set (existingTopics file) \<Longrightarrow> t \<noteq> [] \<and> nl \<notin> set t"
  by (cases "file") (auto simp: existingTopics_def filter_Boolean_def dest: split_on_fields)

lemma nl_free_new: "nl \<notin> set answers \<Longrightarrow> t \<in> set (newTopics answers) \<Longrightarrow> nl \<notin> set t"
proof -
  assume a: "nl \<notin> set answers" and t: "t \<in> set (newTopics answers)"
  from t obtain f where f: "f \<in> set (split_on CHR '','' answers)" and tf: "t = trim f"
    by (auto simp: newTopics_def)
  have "set (join_with c fs) \<supseteq> set g" if "g \<in> set fs" for c fs and g :: string
    using that by (induction c fs rule: join_with.induct) auto
  from this [OF f, of "CHR '',''"] have "set f \<subseteq> set answers" by (simp add: join_split)
  with a tf set_trim [of f] show ?thesis by blast
qed

text \<open>
  Claim C4. For every duplicate-free sequence without empty strings that the registry can
  be, a sequence loaded from a file or the sequence a \<^verbatim>\<open>kafka:topics\<close> run on a one-line
  answer saves, writing the entries newline-joined and loading the file again gives the
  sequence back.
\<close>

theorem Save_Load_roundtrip:
  assumes "distinct L" and "[] \<notin> set L"
    and "L = existingTopics file
         \<or> (nl \<notin> set answers \<and> L = combinedTopics (existingTopics file) (newTopics answers))"
  shows "existingTopics (Some (topicsList L)) = L"
proof -
  have "\<forall>t\<in>set L. nl \<notin> set t"
  proof
    fix t
    assume t: "t \<in> set L"
    from assms(3) show "nl \<notin> set t"
    proof
      assume "L = existingTopics file"
      with t show ?thesis using nl_free_existing [of t "file"] by simp
    next
      assume saved: "nl \<notin> set answers
        \<and> L = combinedTopics (existingTopics file) (newTopics answers)"
      with t have "t \<in> set (existingTopics file) \<or> t \<in> set (newTopics answers)"
        by (simp add: combinedTopics_def Array_from_def new_Set_first_seen set_first_seen)
      then show ?thesis
        using nl_free_existing [of t "file"] nl_free_new [of answers t] saved by blast
    qed
  qed
  with assms(2) show ?thesis by (intro Load_Save_entries) blast
qed

theorem Save_Load_roundtrip_witness:
  "combinedTopics (existingTopics (Some ''orders\<newline>payments'')) (newTopics ''payments, refunds'')
     = [''orders'', ''payments'', ''refunds'']
   \<and> topicsList [''orders'', ''payments'', ''refunds''] = ''orders\<newline>payments\<newline>refunds''
   \<and> existingTopics (Some (topicsList [''orders'', ''payments'', ''refunds'']))
       = [''orders'', ''payments'', ''refunds'']"
  using Save_Load_roundtrip [of "[''orders'', ''payments'', ''refunds'']"
      "Some ''orders\<newline>payments''" "''payments, refunds''"]
  by (simp add: combinedTopics_def Array_from_def new_Set_def set_add_def existingTopics_def
      newTopics_def filter_Boolean_def trim_def is_js_space_def topicsList_def nl_def)

lemma registry_after:
  assumes "nl \<notin> set answers"
  shows "existingTopics (fst (generateTopicsList answers file)) =
         first_seen (existingTopics file @ filter_Boolean (newTopics answers))"
proof -
  let ?ex = "existingTopics file" and ?new = "newTopics answers"
  have free: "\<forall>t\<in>set (first_seen (?ex @ ?new)). nl \<notin> set t"
    using nl_free_existing [of _ "file"] nl_free_new [OF assms] by (auto simp: set_first_seen)
  have "existingTopics (fst (generateTopicsList answers file)) =
        filter_Boolean (first_seen (?ex @ ?new))"
    using Load_Save [OF free]
    by (simp add: generateTopicsList_def combinedTopics_def Array_from_def new_Set_first_seen)
  also have "\<dots> = first_seen (filter_Boolean ?ex @ filter_Boolean ?new)"
    by (simp add: filter_Boolean_def filter_first_seen)
  also have "filter_Boolean ?ex = ?ex"
    using nl_free_existing [of _ "file"] by (intro filter_Boolean_id) blast
  finally show ?thesis .
qed

lemma count_list_first_seen:
  "count_list (first_seen xs) x = (if x \<in> set xs then 1 else 0)"
proof (induction xs rule: first_seen.induct)
  case 1
  show ?case by simp
next
  case (2 y ys)
  then show ?case by (auto simp: set_first_seen)
qed

lemma file_written:
  assumes "nl \<notin> set answers"
  shows "fst (generateTopicsList answers file) =
           Some (topicsList (first_seen (existingTopics file @ newTopics answers)))"
    and "split_on nl (topicsList (first_seen (existingTopics file @ newTopics answers))) =
           first_seen (existingTopics file @ newTopics answers)"
proof -
  let ?c = "first_seen (existingTopics file @ newTopics answers)"
  show "fst (generateTopicsList answers file) = Some (topicsList ?c)"
    by (simp add: generateTopicsList_def combinedTopics_def Array_from_def new_Set_first_seen)
  have "newTopics answers \<noteq> []" by (simp add: newTopics_def split_on_not_Nil)
  then have "existingTopics file @ newTopics answers \<noteq> []" by simp
  then have ne: "?c \<noteq> []" by (cases "existingTopics file @ newTopics answers") auto
  have "\<forall>t\<in>set ?c. nl \<notin> set t"
    using nl_free_existing [of _ "file"] nl_free_new [OF assms] by (auto simp: set_first_seen)
  with ne show "split_on nl (topicsList ?c) = ?c" by (simp add: topicsList_def split_join)
qed

text \<open>
  Claim C1 (as amended). After a \<^verbatim>\<open>kafka:topics\<close> invocation on a one-line answer, the
  registry loaded from the file that was written is the first-seen sequence of the names
  loaded before followed by the non-empty candidates: their union, without duplicates and
  without empty strings. The lines of the file itself are the first-seen sequence of the
  names loaded before followed by all candidates: one of them is empty when some candidate
  was empty, none otherwise.
\<close>

theorem registry_invariant:
  assumes "nl \<notin> set answers"
  shows "existingTopics (fst (generateTopicsList answers file)) =
           first_seen (existingTopics file @ filter_Boolean (newTopics answers))
         \<and> set (existingTopics (fst (generateTopicsList answers file))) =
             set (existingTopics file) \<union> (set (newTopics answers) - {[]})
         \<and> distinct (existingTopics (fst (generateTopicsList answers file)))
         \<and> [] \<notin> set (existingTopics (fst (generateTopicsList answers file)))
         \<and> fst (generateTopicsList answers file) =
             Some (topicsList (first_seen (existingTopics file @ newTopics answers)))
         \<and> split_on nl (topicsList (first_seen (existingTopics file @ newTopics answers))) =
             first_seen (existingTopics file @ newTopics answers)
         \<and> count_list
               (split_on nl (topicsList (first_seen (existingTopics file @ newTopics answers)))) []
             = (if [] \<in> set (newTopics answers) then 1 else 0)"
proof -
  have noempty: "[] \<notin> set (existingTopics file)"
    using nl_free_existing [of "[]" "file"] by blast
  have loaded: "existingTopics (fst (generateTopicsList answers file)) =
           first_seen (existingTopics file @ filter_Boolean (newTopics answers))
         \<and> set (existingTopics (fst (generateTopicsList answers file))) =
             set (existingTopics file) \<union> (set (newTopics answers) - {[]})
         \<and> distinct (existingTopics (fst (generateTopicsList answers file)))
         \<and> [] \<notin> set (existingTopics (fst (generateTopicsList answers file)))"
    using noempty unfolding registry_after [OF assms]
    by (auto simp: set_first_seen distinct_first_seen filter_Boolean_def)
  have "count_list
          (split_on nl (topicsList (first_seen (existingTopics file @ newTopics answers)))) []
        = (if [] \<in> set (newTopics answers) then 1 else 0)"
    using noempty by (simp add: file_written(2) [OF assms] count_list_first_seen)
  with loaded file_written [OF assms] show ?thesis by blast
qed

theorem registry_invariant_witness:
  "nl \<notin> set ''payments, ,refunds''
   \<and> existingTopics (fst (generateTopicsList ''payments, ,refunds'' (Some ''orders\<newline>payments'')))
       = [''orders'', ''payments'', ''refunds'']
   \<and> fst (generateTopicsList ''payments, ,refunds'' (Some ''orders\<newline>payments''))
       = Some ''orders\<newline>payments\<newline>\<newline>refunds''
   \<and> split_on nl ''orders\<newline>payments\<newline>\<newline>refunds'' = [''orders'', ''payments'', [], ''refunds'']
   \<and> count_list (split_on nl ''orders\<newline>payments\<newline>\<newline>refunds'') [] = 1"
  using registry_invariant [of "''payments, ,refunds''" "Some ''orders\<newline>payments''"]
  by (simp add: nl_def existingTopics_def newTopics_def filter_Boolean_def trim_def is_js_space_def
      topicsList_def)

text \<open>
  The file itself does hold an empty entry when a candidate is empty: the answer
  \<^verbatim>\<open>orders,,payments\<close> with no file yet writes three lines, the second one empty.
\<close>

theorem registry_file_counterexample:
  "fst (generateTopicsList ''orders,,payments'' None) = Some ''orders\<newline>\<newline>payments''
   \<and> split_on nl ''orders\<newline>\<newline>payments'' = [''orders'', [], ''payments'']
   \<and> [] \<in> set (split_on nl ''orders\<newline>\<newline>payments'')"
  by (simp add: generateTopicsList_def newTopics_def existingTopics_def combinedTopics_def
      Array_from_def new_Set_def set_add_def topicsList_def trim_def is_js_space_def nl_def)

section \<open>Parsing the answer and loading the file\<close>

text \<open>
  \<open>trim\<close> removes white space around a string and nothing else: what is left neither
  starts nor ends with white space.
\<close>

lemma rev_dropWhile_takeWhile:
  "xs = rev (dropWhile P (rev xs)) @ rev (takeWhile P (rev xs))"
  by (metis rev_append rev_rev_ident takeWhile_dropWhile_id)

lemma trim_surrounding:
  "\<exists>a b. s = a @ trim s @ b \<and> (\<forall>c\<in>set a. is_js_space c) \<and> (\<forall>c\<in>set b. is_js_space c)"
proof -
  let ?d = "dropWhile is_js_space s"
  let ?a = "takeWhile is_js_space s" and ?b = "rev (takeWhile is_js_space (rev ?d))"
  have "s = ?a @ ?d" by simp
  also have "?d = trim s @ ?b"
    unfolding trim_def by (rule rev_dropWhile_takeWhile)
  finally have "s = ?a @ trim s @ ?b" .
  moreover have "\<forall>c\<in>set ?a. is_js_space c"
    by (meson set_takeWhileD)
  moreover have "\<forall>c\<in>set ?b. is_js_space c"
    by (metis set_rev set_takeWhileD)
  ultimately show ?thesis by blast
qed

lemma trim_ends:
  assumes "trim s \<noteq> []"
  shows "\<not> is_js_space (hd (trim s)) \<and> \<not> is_js_space (last (trim s))"
proof -
  let ?d = "dropWhile is_js_space s"
  let ?e = "dropWhile is_js_space (rev ?d)"
  from assms have e: "?e \<noteq> []" by (simp add: trim_def)
  then have "\<not> is_js_space (hd ?e)" by (rule hd_dropWhile)
  moreover have "last (trim s) = hd ?e" using e by (simp add: trim_def last_rev)
  moreover have "\<not> is_js_space (hd (trim s))"
  proof -
    have d: "?d \<noteq> []" using e by (metis dropWhile.simps(1) rev.simps(1))
    then have nd: "\<not> is_js_space (hd ?d)" by (rule hd_dropWhile)
    have "?d = trim s @ rev (takeWhile is_js_space (rev ?d))"
      unfolding trim_def by (rule rev_dropWhile_takeWhile)
    then have "hd ?d = hd (trim s)" using assms by (metis hd_append2)
    with nd show ?thesis by simp
  qed
  ultimately show ?thesis by simp
qed

text \<open>
  Claim C2 (as amended). For an answer made of the comma-separated fields \<open>fs\<close>, the
  candidates are exactly the trimmed fields, empty ones included, and the file written
  holds the first-seen sequence of the names loaded before followed by all of them. The
  answer \<^verbatim>\<open>x, , y\<close> with no file yet writes \<^verbatim>\<open>x\<close>, an empty line and \<^verbatim>\<open>y\<close>; loading
  that file gives \<^verbatim>\<open>["x","y"]\<close>.
\<close>

theorem topics_from_fields:
  assumes "fs \<noteq> []" and "\<forall>f\<in>set fs. CHR '','' \<notin> set f"
  shows "newTopics (join_with CHR '','' fs) = map trim fs
         \<and> fst (generateTopicsList (join_with CHR '','' fs) file) =
             Some (join_with nl (first_seen (existingTopics file @ map trim fs)))"
  using assms
  by (simp add: newTopics_def split_join generateTopicsList_def combinedTopics_def
      Array_from_def new_Set_first_seen topicsList_def)

theorem topics_from_fields_witness:
  "newTopics (join_with CHR '','' [''x'', '' '', '' y'']) = [''x'', [], ''y'']
   \<and> fst (generateTopicsList ''x, , y'' None) = Some ''x\<newline>\<newline>y''
   \<and> existingTopics (Some ''x\<newline>\<newline>y'') = [''x'', ''y'']"
  using topics_from_fields [of "[''x'', '' '', '' y'']" None]
  by (simp add: existingTopics_def filter_Boolean_def trim_def is_js_space_def nl_def)

text \<open>
  Empty candidates are not dropped before the merge: for the answer \<^verbatim>\<open>x, , y\<close> on an
  empty registry the merged sequence has three entries.
\<close>

theorem topics_empty_candidate_counterexample:
  "combinedTopics (existingTopics None) (newTopics ''x, , y'') = [''x'', [], ''y'']
   \<and> combinedTopics (existingTopics None) (newTopics ''x, , y'') \<noteq> [''x'', ''y'']"
  by (simp add: newTopics_def existingTopics_def combinedTopics_def Array_from_def new_Set_def
      set_add_def trim_def is_js_space_def)

text \<open>
  Claim C5 (as amended). Loading an absent file gives the empty sequence; loading a file
  made of the lines \<open>fs\<close> gives the non-empty ones, in order and as they are stored.
  By \<open>join_split\<close> and \<open>split_on_fields\<close> every file content is made of such lines.
\<close>

theorem Load_lines:
  "existingTopics None = []
   \<and> (fs \<noteq> [] \<and> (\<forall>f\<in>set fs. nl \<notin> set f) \<longrightarrow>
        existingTopics (Some (join_with nl fs)) = filter (\<lambda>f. f \<noteq> []) fs)"
  by (simp add: existingTopics_def split_join filter_Boolean_def)

theorem Load_lines_witness:
  "existingTopics None = []
   \<and> existingTopics (Some (join_with nl [''orders '', [], '' payments'', []]))
       = [''orders '', '' payments'']"
  using Load_lines [of "[''orders '', [], '' payments'', []]"]
  by (simp add: nl_def)

text \<open>
  The lines are not trimmed: a line that ends with a space is loaded with the space.
\<close>

theorem Load_trim_counterexample:
  "existingTopics (Some ''orders \<newline>payments'') = [''orders '', ''payments'']
   \<and> Load_spec (Some ''orders \<newline>payments'') = [''orders'', ''payments'']
   \<and> existingTopics (Some ''orders \<newline>payments'') \<noteq> Load_spec (Some ''orders \<newline>payments'')"
  by (simp add: existingTopics_def Load_spec_def filter_Boolean_def trim_def is_js_space_def nl_def)

section \<open>Migration\<close>

lemma dispatched_append: "dispatched (xs @ ys) = dispatched xs @ dispatched ys"
  by (induction xs rule: dispatched.induct) auto

lemma reported_append: "reported (xs @ ys) = reported xs @ reported ys"
  by (induction xs rule: reported.induct) auto

lemma forTopics_succeed:
  "succeed_all sh (world r) (map createTopicCommand pre) = Some w1 \<Longrightarrow>
   forTopics sh (pre @ rest) r =
   forTopics sh rest \<lparr>world = w1, trace = trace r @ concat (map created pre)\<rparr>"
proof (induction pre arbitrary: r)
  case Nil
  then show ?case by (cases r) simp
next
  case (Cons t pre)
  obtain res w' where sh: "sh (world r) (createTopicCommand t) = (res, w')"
    by (cases "sh (world r) (createTopicCommand t)")
  with Cons.prems obtain out where res: "res = Inr out"
    by (cases res) auto
  let ?r1 = "\<lparr>world = w', trace = trace r @ created t\<rparr>"
  have "succeed_all sh (world ?r1) (map createTopicCommand pre) = Some w1"
    using Cons.prems sh res by simp
  from Cons.IH [OF this] show ?case
    using sh res by (simp add: execPromise_def emit_def created_def)
qed

lemma dispatched_created: "dispatched (concat (map created pre)) = map createTopicCommand pre"
  by (induction pre) (auto simp: created_def)

lemma reported_created: "reported (concat (map created pre)) = []"
  by (induction pre) (auto simp: created_def)

lemma createTopicCommand_literal:
  "createTopicCommand =
     (\<lambda>topic. ''docker exec kafka-server /opt/kafka/bin/kafka-topics.sh --create --topic ''
        @ topic @ '' --bootstrap-server localhost:9092'')"
  by (rule ext) (simp add: createTopicCommand_def)

lemma forTopics_fail_fast:
  assumes "filter_Boolean (split_on nl content) = pre @ t # post"
    and "succeed_all sh w (map createTopicCommand pre) = Some w1"
    and "fst (sh w1 (createTopicCommand t)) = Inl message"
  shows "dispatched (trace (kafkaMigrate sh (Some content) (initial w))) =
           map createTopicCommand (pre @ [t])
         \<and> reported (trace (kafkaMigrate sh (Some content) (initial w))) =
             [''Error: '' @ message]"
proof -
  obtain w2 where sh: "sh w1 (createTopicCommand t) = (Inl message, w2)"
    using assms(3) by (cases "sh w1 (createTopicCommand t)") auto
  have "forTopics sh (pre @ t # post) (initial w) =
        forTopics sh (t # post) \<lparr>world = w1, trace = concat (map created pre)\<rparr>"
    using forTopics_succeed [of sh "initial w" pre w1 "t # post"] assms(2)
    by (simp add: initial_def)
  also have "\<dots> = (Some message,
      \<lparr>world = w2, trace = concat (map created pre) @
         [ConsoleLog (''Creating the topic '' @ t @ ''...''), Exec (createTopicCommand t)]\<rparr>)"
    using sh by (simp add: execPromise_def emit_def)
  finally have "trace (kafkaMigrate sh (Some content) (initial w)) =
      concat (map created pre) @
         [ConsoleLog (''Creating the topic '' @ t @ ''...''), Exec (createTopicCommand t),
          ConsoleError (''Error: '' @ message)]"
    using assms(1) by (simp add: kafkaMigrate_def catch_error_def emit_def)
  then show ?thesis
    by (simp add: dispatched_append reported_append dispatched_created reported_created)
qed

text \<open>
  Claim C6. When the loaded registry is \<open>pre @ t # post\<close>, the creation requests for
  \<open>pre\<close> succeed one after the other and the request for \<open>t\<close> fails, \<^verbatim>\<open>kafka:migrate\<close>
  dispatches the \<^verbatim>\<open>kafka-topics.sh --create\<close> command lines for the topics of \<open>pre\<close> and
  for \<open>t\<close>, in registry order, and nothing for \<open>post\<close>, and it reports the failure once.
  Over \<^verbatim>\<open>["orders","payments"]\<close> with the first creation failing there is one attempt,
  for \<^verbatim>\<open>orders\<close>.
\<close>

theorem kafkaMigrate_fail_fast:
  assumes "filter_Boolean (split_on nl content) = pre @ t # post"
    and "succeed_all sh w
           (map (\<lambda>topic. ''docker exec kafka-server /opt/kafka/bin/kafka-topics.sh --create --topic ''
                   @ topic @ '' --bootstrap-server localhost:9092'') pre) = Some w1"
    and "fst (sh w1 (''docker exec kafka-server /opt/kafka/bin/kafka-topics.sh --create --topic ''
                   @ t @ '' --bootstrap-server localhost:9092'')) = Inl message"
  shows "dispatched (trace (kafkaMigrate sh (Some content) (initial w))) =
           map (\<lambda>topic. ''docker exec kafka-server /opt/kafka/bin/kafka-topics.sh --create --topic ''
                   @ topic @ '' --bootstrap-server localhost:9092'') (pre @ [t])
         \<and> reported (trace (kafkaMigrate sh (Some content) (initial w))) =
             [''Error: '' @ message]"
  using forTopics_fail_fast [of content pre t post sh w w1 message] assms
  unfolding createTopicCommand_literal by blast

theorem kafkaMigrate_fail_fast_witness:
  "dispatched (trace (kafkaMigrate (\<lambda>w cmd. (Inl ''refused'', w)) (Some ''orders\<newline>payments'')
        (initial ()))) =
       [''docker exec kafka-server /opt/kafka/bin/kafka-topics.sh --create --topic orders --bootstrap-server localhost:9092'']
   \<and> reported (trace (kafkaMigrate (\<lambda>w cmd. (Inl ''refused'', w)) (Some ''orders\<newline>payments'')
        (initial ()))) = [''Error: refused'']
   \<and> dispatched (trace (kafkaMigrate
        (\<lambda>w cmd. (if cmd = ''docker exec kafka-server /opt/kafka/bin/kafka-topics.sh --create --topic payments --bootstrap-server localhost:9092''
                   then Inl ''refused'' else Inr [], w))
        (Some ''orders\<newline>payments\<newline>refunds'') (initial ()))) =
       [''docker exec kafka-server /opt/kafka/bin/kafka-topics.sh --create --topic orders --bootstrap-server localhost:9092'',
        ''docker exec kafka-server /opt/kafka/bin/kafka-topics.sh --create --topic payments --bootstrap-server localhost:9092'']
   \<and> reported (trace (kafkaMigrate
        (\<lambda>w cmd. (if cmd = ''docker exec kafka-server /opt/kafka/bin/kafka-topics.sh --create --topic payments --bootstrap-server localhost:9092''
                   then Inl ''refused'' else Inr [], w))
        (Some ''orders\<newline>payments\<newline>refunds'') (initial ()))) = [''Error: refused'']"
  using kafkaMigrate_fail_fast [of "''orders\<newline>payments''" "[]" "''orders''" "[''payments'']"
      "\<lambda>w cmd. (Inl ''refused'', w)" "()" "()" "''refused''"]
    kafkaMigrate_fail_fast [of "''orders\<newline>payments\<newline>refunds''" "[''orders'']" "''payments''"
      "[''refunds'']"
      "\<lambda>w cmd. (if cmd = ''docker exec kafka-server /opt/kafka/bin/kafka-topics.sh --create --topic payments --bootstrap-server localhost:9092''
                 then Inl ''refused'' else Inr [], w)"
      "()" "()" "''refused''"]
  by (simp add: filter_Boolean_def nl_def)

text \<open>
  Claim C7. Without the registry file \<^verbatim>\<open>kafka:migrate\<close> prints the one error line about
  the missing file and stops: it dispatches no command and leaves the world as it was.
\<close>

theorem kafkaMigrate_no_file:
  "kafkaMigrate sh None r =
     r\<lparr>trace := trace r @ [ConsoleError ''Error: The topics.txt file does not exist.'']\<rparr>
   \<and> world (kafkaMigrate sh None r) = world r
   \<and> dispatched (trace (kafkaMigrate sh None r)) = dispatched (trace r)
   \<and> dispatched (trace (kafkaMigrate sh None (initial w))) = []"
  by (simp add: kafkaMigrate_def emit_def dispatched_append initial_def)

theorem kafkaMigrate_no_file_witness:
  "trace (kafkaMigrate (\<lambda>w cmd. (Inr [], w)) None (initial ())) =
     [ConsoleError ''Error: The topics.txt file does not exist.'']
   \<and> dispatched (trace (kafkaMigrate (\<lambda>w cmd. (Inr [], w)) None (initial ()))) = []"
  using kafkaMigrate_no_file [of "\<lambda>w cmd. (Inr [], w)" "initial ()" "()"]
  by (simp add: initial_def)

text \<open>
  Claim C10. When every line of the existing file is empty, \<^verbatim>\<open>kafka:migrate\<close> does
  nothing at all: no command, no output, no error. The absent file, by contrast, is
  reported on \<^verbatim>\<open>console.error\<close>.
\<close>

theorem kafkaMigrate_empty_registry:
  assumes "\<forall>l\<in>set (split_on nl content). l = []"
  shows "kafkaMigrate sh (Some content) r = r
         \<and> reported (trace (kafkaMigrate sh None r)) \<noteq> reported (trace r)"
proof -
  from assms have "filter_Boolean (split_on nl content) = []"
    by (simp add: filter_Boolean_def)
  then show ?thesis
    by (simp add: kafkaMigrate_def emit_def reported_append)
qed

theorem kafkaMigrate_empty_registry_witness:
  "split_on nl ''\<newline>\<newline>'' = [[], [], []]
   \<and> kafkaMigrate (\<lambda>w cmd. (Inl ''refused'', w)) (Some ''\<newline>\<newline>'') (initial ()) = initial ()
   \<and> reported (trace (kafkaMigrate (\<lambda>w cmd. (Inl ''refused'', w)) None (initial ()))) =
       [''Error: The topics.txt file does not exist.'']"
  using kafkaMigrate_empty_registry [of "''\<newline>\<newline>''" "\<lambda>w cmd. (Inl ''refused'', w)" "initial ()"]
  by (simp add: nl_def kafkaMigrate_def emit_def initial_def)

section \<open>The container lifecycle\<close>

text \<open>
  Claim C8. When the probe \<^verbatim>\<open>docker ps -aq\<close> answers with the container,
  \<^verbatim>\<open>kafka:create\<close> prints that it already exists and dispatches nothing else; when the
  probe answers with nothing, it dispatches one \<^verbatim>\<open>docker run\<close> with the fixed image and
  the port mapping 9092:9092, whatever that command then answers.
\<close>

theorem createKafkaContainer_idempotent:
  assumes "sh w ''docker ps -aq -f name=kafka-server'' = (Inr stdout, w1)"
  shows "(trim stdout \<noteq> [] \<longrightarrow>
            trace (createKafkaContainer sh (initial w)) =
              [Exec ''docker ps -aq -f name=kafka-server'',
               ConsoleLog ''The container kafka-server already exists.''])
         \<and> (trim stdout = [] \<longrightarrow>
            dispatched (trace (createKafkaContainer sh (initial w))) =
              [''docker ps -aq -f name=kafka-server'',
               ''docker run -d --name kafka-server -p 9092:9092 -e ALLOW_PLAINTEXT_LISTENER=yes apache/kafka:3.8.0''])"
proof (intro conjI impI)
  assume "trim stdout \<noteq> []"
  with assms show "trace (createKafkaContainer sh (initial w)) =
              [Exec ''docker ps -aq -f name=kafka-server'',
               ConsoleLog ''The container kafka-server already exists.'']"
    by (simp add: createKafkaContainer_def execPromise_def emit_def initial_def containerName_def)
next
  assume absent: "trim stdout = []"
  obtain res w2 where run: "sh w1 (''docker run -d --name '' @ containerName
         @ '' -p 9092:9092 -e ALLOW_PLAINTEXT_LISTENER=yes '' @ imageName) = (res, w2)"
    by (cases "sh w1 (''docker run -d --name '' @ containerName
         @ '' -p 9092:9092 -e ALLOW_PLAINTEXT_LISTENER=yes '' @ imageName)")
  show "dispatched (trace (createKafkaContainer sh (initial w))) =
              [''docker ps -aq -f name=kafka-server'',
               ''docker run -d --name kafka-server -p 9092:9092 -e ALLOW_PLAINTEXT_LISTENER=yes apache/kafka:3.8.0'']"
    using assms absent run
    by (cases res)
      (simp_all add: createKafkaContainer_def execPromise_def emit_def initial_def
        containerName_def imageName_def catch_error_def)
qed

theorem createKafkaContainer_idempotent_witness:
  "trim ''4f1c9a27e0b3\<newline>'' = ''4f1c9a27e0b3''
   \<and> trace (createKafkaContainer (\<lambda>w cmd. (Inr ''4f1c9a27e0b3\<newline>'', w)) (initial ())) =
       [Exec ''docker ps -aq -f name=kafka-server'',
        ConsoleLog ''The container kafka-server already exists.'']
   \<and> dispatched (trace (createKafkaContainer (\<lambda>w cmd. (Inr [], w)) (initial ()))) =
       [''docker ps -aq -f name=kafka-server'',
        ''docker run -d --name kafka-server -p 9092:9092 -e ALLOW_PLAINTEXT_LISTENER=yes apache/kafka:3.8.0'']"
  using createKafkaContainer_idempotent [of "\<lambda>w cmd. (Inr ''4f1c9a27e0b3\<newline>'', w)" "()"
      "''4f1c9a27e0b3\<newline>''" "()"]
    createKafkaContainer_idempotent [of "\<lambda>w cmd. (Inr [], w)" "()" "[]" "()"]
  by (simp add: trim_def is_js_space_def)

lemma start_absent:
  "sh w ''docker ps -aq -f name=kafka-server'' = (Inr stdout, w1) \<Longrightarrow> trim stdout = [] \<Longrightarrow>
   trace (startKafkaContainer sh (initial w)) =
     [Exec ''docker ps -aq -f name=kafka-server'',
      ConsoleError ''Error: The container does not exist.'']"
  by (simp add: startKafkaContainer_def execPromise_def emit_def initial_def containerName_def)

lemma start_probe_failed:
  "sh w ''docker ps -aq -f name=kafka-server'' = (Inl message, w1) \<Longrightarrow>
   trace (startKafkaContainer sh (initial w)) =
     [Exec ''docker ps -aq -f name=kafka-server'', ConsoleError (''Error: '' @ message)]"
  by (simp add: startKafkaContainer_def execPromise_def emit_def initial_def containerName_def
      catch_error_def)

lemma start_running:
  "sh w ''docker ps -aq -f name=kafka-server'' = (Inr stdout, w1) \<Longrightarrow> trim stdout \<noteq> [] \<Longrightarrow>
   sh w1 ''docker ps -q -f name=kafka-server'' = (Inr isRunning, w2) \<Longrightarrow>
   trim isRunning \<noteq> [] \<Longrightarrow>
   trace (startKafkaContainer sh (initial w)) =
     [Exec ''docker ps -aq -f name=kafka-server'', Exec ''docker ps -q -f name=kafka-server'',
      ConsoleLog ''The container kafka-server is already running.'']"
  by (simp add: startKafkaContainer_def execPromise_def emit_def initial_def containerName_def)

lemma start_second_probe_failed:
  "sh w ''docker ps -aq -f name=kafka-server'' = (Inr stdout, w1) \<Longrightarrow> trim stdout \<noteq> [] \<Longrightarrow>
   sh w1 ''docker ps -q -f name=kafka-server'' = (Inl message, w2) \<Longrightarrow>
   trace (startKafkaContainer sh (initial w)) =
     [Exec ''docker ps -aq -f name=kafka-server'', Exec ''docker ps -q -f name=kafka-server'',
      ConsoleError (''Error: '' @ message)]"
  by (simp add: startKafkaContainer_def execPromise_def emit_def initial_def containerName_def
      catch_error_def)

lemma start_stopped:
  assumes "sh w ''docker ps -aq -f name=kafka-server'' = (Inr stdout, w1)"
    and "trim stdout \<noteq> []"
    and "sh w1 ''docker ps -q -f name=kafka-server'' = (Inr isRunning, w2)"
    and "trim isRunning = []"
  shows "dispatched (trace (startKafkaContainer sh (initial w))) =
     [''docker ps -aq -f name=kafka-server'', ''docker ps -q -f name=kafka-server'',
      ''docker start kafka-server'']"
proof -
  obtain res w3 where "sh w2 (''docker start '' @ containerName) = (res, w3)"
    by (cases "sh w2 (''docker start '' @ containerName)")
  with assms show ?thesis
    by (cases res)
      (simp_all add: startKafkaContainer_def execPromise_def emit_def initial_def
        containerName_def catch_error_def)
qed

text \<open>
  Claim C9. \<^verbatim>\<open>kafka:start\<close> dispatches \<^verbatim>\<open>docker start\<close> exactly when the first probe
  answers with the container and the second probe answers with nothing. From Absent it
  prints the error that the container does not exist and starts nothing; from Running it
  prints that the container is already running and starts nothing; from Stopped it
  dispatches one start.
\<close>

theorem startKafkaContainer_start_iff:
  "(''docker start kafka-server'' \<in> set (dispatched (trace (startKafkaContainer sh (initial w))))
      \<longleftrightarrow> (\<exists>stdout w1 isRunning w2.
             sh w ''docker ps -aq -f name=kafka-server'' = (Inr stdout, w1) \<and> trim stdout \<noteq> []
             \<and> sh w1 ''docker ps -q -f name=kafka-server'' = (Inr isRunning, w2)
             \<and> trim isRunning = []))
   \<and> (sh w ''docker ps -aq -f name=kafka-server'' = (Inr stdout, w1) \<and> trim stdout = [] \<longrightarrow>
        trace (startKafkaContainer sh (initial w)) =
          [Exec ''docker ps -aq -f name=kafka-server'',
           ConsoleError ''Error: The container does not exist.''])
   \<and> (sh w ''docker ps -aq -f name=kafka-server'' = (Inr stdout, w1) \<and> trim stdout \<noteq> []
        \<and> sh w1 ''docker ps -q -f name=kafka-server'' = (Inr isRunning, w2) \<longrightarrow>
        (trim isRunning \<noteq> [] \<longrightarrow>
           trace (startKafkaContainer sh (initial w)) =
             [Exec ''docker ps -aq -f name=kafka-server'',
              Exec ''docker ps -q -f name=kafka-server'',
              ConsoleLog ''The container kafka-server is already running.''])
        \<and> (trim isRunning = [] \<longrightarrow>
           dispatched (trace (startKafkaContainer sh (initial w))) =
             [''docker ps -aq -f name=kafka-server'', ''docker ps -q -f name=kafka-server'',
              ''docker start kafka-server'']))"
proof (intro conjI)
  let ?go = "''docker start kafka-server'' \<in>
      set (dispatched (trace (startKafkaContainer sh (initial w))))"
  show "?go \<longleftrightarrow> (\<exists>stdout w1 isRunning w2.
             sh w ''docker ps -aq -f name=kafka-server'' = (Inr stdout, w1) \<and> trim stdout \<noteq> []
             \<and> sh w1 ''docker ps -q -f name=kafka-server'' = (Inr isRunning, w2)
             \<and> trim isRunning = [])"
  proof (cases "sh w ''docker ps -aq -f name=kafka-server''")
    case (Pair res1 v1)
    show ?thesis
    proof (cases res1)
      case (Inl message)
      with Pair start_probe_failed [of sh w message v1] show ?thesis by simp
    next
      case (Inr out1)
      show ?thesis
      proof (cases "trim out1 = []")
        case True
        with Pair Inr start_absent [of sh w out1 v1] show ?thesis by simp
      next
        case False
        show ?thesis
        proof (cases "sh v1 ''docker ps -q -f name=kafka-server''")
          case second: (Pair res2 v2)
          show ?thesis
          proof (cases res2)
            case (Inl message)
            with Pair Inr False second start_second_probe_failed [of sh w out1 v1 message v2]
            show ?thesis by simp
          next
            case run: (Inr out2)
            show ?thesis
            proof (cases "trim out2 = []")
              case True
              with Pair Inr False second run start_stopped [of sh w out1 v1 out2 v2]
              show ?thesis by simp
            next
              case nonempty: False
              with Pair Inr False second run start_running [of sh w out1 v1 out2 v2]
              show ?thesis by simp
            qed
          qed
        qed
      qed
    qed
  qed
qed (auto simp: start_absent start_running start_stopped)

theorem startKafkaContainer_start_iff_witness:
  "trim ''4f1c9a27e0b3\<newline>'' = ''4f1c9a27e0b3''
   \<and> trace (startKafkaContainer (\<lambda>w cmd. (Inr [], w)) (initial ())) =
       [Exec ''docker ps -aq -f name=kafka-server'',
        ConsoleError ''Error: The container does not exist.'']
   \<and> trace (startKafkaContainer (\<lambda>w cmd. (Inr ''4f1c9a27e0b3\<newline>'', w)) (initial ())) =
       [Exec ''docker ps -aq -f name=kafka-server'', Exec ''docker ps -q -f name=kafka-server'',
        ConsoleLog ''The container kafka-server is already running.'']
   \<and> dispatched (trace (startKafkaContainer
        (\<lambda>w cmd. (Inr (if cmd = ''docker ps -aq -f name=kafka-server''
                         then ''4f1c9a27e0b3\<newline>'' else []), w))
        (initial ()))) =
       [''docker ps -aq -f name=kafka-server'', ''docker ps -q -f name=kafka-server'',
        ''docker start kafka-server'']"
  using startKafkaContainer_start_iff [of "\<lambda>w cmd. (Inr [], w)" "()" "[]" "()" "[]" "()"]
    startKafkaContainer_start_iff [of "\<lambda>w cmd. (Inr ''4f1c9a27e0b3\<newline>'', w)" "()"
      "''4f1c9a27e0b3\<newline>''" "()" "''4f1c9a27e0b3\<newline>''" "()"]
    startKafkaContainer_start_iff [of
      "\<lambda>w cmd. (Inr (if cmd = ''docker ps -aq -f name=kafka-server''
                       then ''4f1c9a27e0b3\<newline>'' else []), w)"
      "()" "''4f1c9a27e0b3\<newline>''" "()" "[]" "()"]
  by (simp add: trim_def is_js_space_def)

end
